theory Spec2Isabelle
  imports Main "HOL-Library.Multiset"
begin

section \<open>The keygen application: data model\<close>

text \<open>
  The repository is a Django project with one application, \<^verbatim>\<open>keygen\<close>: one model
  (\<^verbatim>\<open>keygen/models.py\<close>), three views and one deferred job (\<^verbatim>\<open>keygen/views.py\<close>) and
  three routes (\<^verbatim>\<open>keygen/urls.py\<close>). The views are embedded as functions on an explicit
  state, the \<open>world\<close>: the database table, the clock, the operating system's randomness,
  the job queue and the message store. An exception is a value \<open>Inl e\<close>, returned with
  the state reached when it was raised.
\<close>

type_synonym timestamp = nat

text \<open>
  \<^verbatim>\<open>class Secret(models.Model)\<close>: the primary key \<^verbatim>\<open>id\<close> is the AutoField Django adds
  (migration 0001), \<^verbatim>\<open>created\<close> is a DateTimeField with \<^verbatim>\<open>auto_now_add\<close>, \<^verbatim>\<open>key\<close> a
  CharField. The field \<^verbatim>\<open>id\<close> is written \<open>secret_id\<close>, since \<open>id\<close> is HOL's identity.
\<close>

record Secret =
  secret_id :: nat
  created :: timestamp
  key :: string

text \<open>\<^verbatim>\<open>key = models.CharField(max_length=50, ...)\<close>\<close>

definition max_length :: nat where
  "max_length = 50"

text \<open>
  The exceptions the operations below can raise: the database is unreachable, a value
  does not fit its column, the queue's server is unreachable, a route name is unknown,
  no route matches a path.
\<close>

datatype error = OperationalError | DataError | ConnectionError | NoReverseMatch | Resolver404

text \<open>The only function of the repository decorated as a job is \<^verbatim>\<open>generate_bg\<close>.\<close>

datatype job = GenerateBg

text \<open>\<^verbatim>\<open>messages.success\<close> stores a message of level SUCCESS.\<close>

datatype level = SUCCESS

record world =
  table :: "Secret list"
  next_id :: nat
  clock :: timestamp
  entropy :: "nat \<Rightarrow> nat"
  queue :: "job list"
  notices :: "(level \<times> string) list"
  db_fault :: "error option"
  queue_fault :: "error option"

text \<open>
  \<open>table\<close> holds the rows of the model's table in insertion order and \<open>next_id\<close> is the
  next value of the primary key's sequence. \<open>entropy\<close> is the sequence of random numbers
  the operating system will hand out next. \<open>db_fault\<close> and \<open>queue_fault\<close> say whether
  the database and the queue's server fail, and with which exception.
\<close>

text \<open>
  The query string of a request, \<^verbatim>\<open>request.GET\<close>: a parameter may occur several times,
  so a name maps to the list of its values.
\<close>

record request =
  GET :: "string \<rightharpoonup> string list"

datatype response =
  Render string "(string \<times> Secret list) list"
  | Redirect string

type_synonym 'a io = "world \<Rightarrow> (error + 'a) \<times> world"

section \<open>The framework's operations\<close>

text \<open>
  The views call Django, django-rq and the standard library. These calls are embedded by
  what their documentation says they do on the state above.
\<close>

text \<open>
  Modelled from the spec: \<^verbatim>\<open>django.core.management.utils.get_random_secret_key\<close>, the
  default of \<^verbatim>\<open>Secret.key\<close>, belongs to the framework and is not part of the sources.
  Django documents it as returning a 50 character random string: each character is a
  random choice among 50 allowed characters. \<open>choice\<close> picks the element a random number
  selects; the sequence it is given here is never empty.
\<close>

definition choice :: "'a list \<Rightarrow> nat \<Rightarrow> 'a" where
  "choice seq r = seq ! (r mod length seq)"

definition get_random_string :: "nat \<Rightarrow> string \<Rightarrow> (nat \<Rightarrow> nat) \<Rightarrow> string" where
  "get_random_string n allowed_chars rnd = map (\<lambda>i. choice allowed_chars (rnd i)) [0..<n]"

definition secret_key_chars :: string where
  "secret_key_chars = ''abcdefghijklmnopqrstuvwxyz0123456789!@#$%^&*(-_=+)''"

definition get_random_secret_key :: "world \<Rightarrow> string \<times> world" where
  "get_random_secret_key w =
     (get_random_string 50 secret_key_chars (entropy w),
      w\<lparr>entropy := (\<lambda>i. entropy w (i + 50))\<rparr>)"

text \<open>
  \<^verbatim>\<open>Secret.objects.create()\<close> builds a Secret with no argument, so \<^verbatim>\<open>key\<close> takes its
  default, and saves it: \<^verbatim>\<open>auto_now_add\<close> sets \<^verbatim>\<open>created\<close> to the current time and the
  database assigns \<^verbatim>\<open>id\<close> from its sequence. The column is \<^verbatim>\<open>varchar(50)\<close>: a longer
  value is refused, never cut.
\<close>

definition objects_create :: "Secret io" where
  "objects_create w =
     (case get_random_secret_key w of (k, w1) \<Rightarrow>
        (case db_fault w1 of
           Some e \<Rightarrow> (Inl e, w1)
         | None \<Rightarrow>
             if max_length < length k then (Inl DataError, w1)
             else
               let row = \<lparr>secret_id = next_id w1, created = clock w1, key = k\<rparr>
               in (Inr row, w1\<lparr>table := table w1 @ [row], next_id := Suc (next_id w1)\<rparr>)))"

text \<open>
  \<^verbatim>\<open>Secret.objects.all()\<close>, evaluated: \<^verbatim>\<open>Meta.ordering = ['-created']\<close> makes the query
  \<^verbatim>\<open>ORDER BY created DESC\<close>.
\<close>

definition objects_all :: "world \<Rightarrow> error + Secret list" where
  "objects_all w =
     (case db_fault w of
        Some e \<Rightarrow> Inl e
      | None \<Rightarrow> Inr (rev (sort_key created (table w))))"

text \<open>\<^verbatim>\<open>Secret.objects.all().delete()\<close> deletes every row and returns how many there were.\<close>

definition objects_all_delete :: "nat io" where
  "objects_all_delete w =
     (case db_fault w of
        Some e \<Rightarrow> (Inl e, w)
      | None \<Rightarrow> (Inr (length (table w)), w\<lparr>table := []\<rparr>))"

text \<open>\<^verbatim>\<open>messages.success(request, text)\<close>\<close>

definition messages_success :: "string \<Rightarrow> world \<Rightarrow> world" where
  "messages_success text w = w\<lparr>notices := notices w @ [(SUCCESS, text)]\<rparr>"

text \<open>\<^verbatim>\<open>time.sleep(secs)\<close>: when it returns, the clock has advanced by the time slept.\<close>

definition time_sleep :: "nat \<Rightarrow> world \<Rightarrow> world" where
  "time_sleep secs w = w\<lparr>clock := clock w + secs\<rparr>"

text \<open>\<^verbatim>\<open>f.delay()\<close> of a function decorated with \<^verbatim>\<open>@job\<close> puts one job on the queue.\<close>

definition delay :: "job \<Rightarrow> unit io" where
  "delay j w =
     (case queue_fault w of
        Some e \<Rightarrow> (Inl e, w)
      | None \<Rightarrow> (Inr (), w\<lparr>queue := queue w @ [j]\<rparr>))"

text \<open>
  \<^verbatim>\<open>request.GET.get(name)\<close>: the last value of the parameter, \<^verbatim>\<open>None\<close> when the
  parameter is absent. \<open>truthy\<close> is Python's truth value of the result in \<^verbatim>\<open>if\<close>.
\<close>

definition QueryDict_get :: "(string \<rightharpoonup> string list) \<Rightarrow> string \<Rightarrow> string option" where
  "QueryDict_get q name =
     (case q name of
        None \<Rightarrow> None
      | Some vs \<Rightarrow> if vs = [] then None else Some (last vs))"

definition truthy :: "string option \<Rightarrow> bool" where
  "truthy v = (case v of None \<Rightarrow> False | Some s \<Rightarrow> s \<noteq> [])"

section \<open>Routes (keygen/urls.py)\<close>

datatype view = Index | Generate | Delete

text \<open>\<^verbatim>\<open>urlpatterns\<close>: route, view, name.\<close>

definition urlpatterns :: "(string \<times> view \<times> string) list" where
  "urlpatterns =
     [('''', Index, ''home''),
      (''generate'', Generate, ''generate''),
      (''delete'', Delete, ''delete'')]"

text \<open>\<^verbatim>\<open>reverse(name)\<close>: the path of the first pattern with that name.\<close>

definition reverse :: "string \<Rightarrow> string option" where
  "reverse name =
     (case filter (\<lambda>(route, v, n). n = name) urlpatterns of
        [] \<Rightarrow> None
      | (route, v, n) # _ \<Rightarrow> Some (''/'' @ route))"

text \<open>\<^verbatim>\<open>redirect(name)\<close>\<close>

definition redirect :: "string \<Rightarrow> response io" where
  "redirect name w =
     (case reverse name of
        None \<Rightarrow> (Inl NoReverseMatch, w)
      | Some url \<Rightarrow> (Inr (Redirect url), w))"

text \<open>The view the URL resolver picks for a path (without its leading slash).\<close>

definition resolve :: "string \<Rightarrow> view option" where
  "resolve path =
     (case filter (\<lambda>(route, v, n). route = path) urlpatterns of
        [] \<Rightarrow> None
      | (route, v, n) # _ \<Rightarrow> Some v)"

section \<open>Views and the job (keygen/views.py)\<close>

text \<open>
  \<^verbatim>\<open>
  @job
  def generate_bg():
      time.sleep(2) # Simulate expensive operation.
      Secret.objects.create()
  \<close>
\<close>

definition generate_bg :: "unit io" where
  "generate_bg w =
     (case objects_create (time_sleep 2 w) of
        (Inl e, w1) \<Rightarrow> (Inl e, w1)
      | (Inr row, w1) \<Rightarrow> (Inr (), w1))"

text \<open>
  \<^verbatim>\<open>
  def index(request):
      context = {'secrets': Secret.objects.all()}
      return render(request, 'keygen/index.html', context)
  \<close>
  The query set is evaluated when the template is rendered, inside \<^verbatim>\<open>render\<close>; the
  response is represented by the template's name and the context it was given.
\<close>

definition index :: "request \<Rightarrow> response io" where
  "index req w =
     (case objects_all w of
        Inl e \<Rightarrow> (Inl e, w)
      | Inr secrets \<Rightarrow> (Inr (Render ''keygen/index.html'' [(''secrets'', secrets)]), w))"

text \<open>
  \<^verbatim>\<open>
  def generate(request):
      if request.GET.get('bg'):
          generate_bg.delay()
          messages.success(request, 'Generating new key in background. ...')
      else:
          Secret.objects.create()
          messages.success(request, 'Generated new key.')
      return redirect('home')
  \<close>
\<close>

definition bg_notice :: string where
  "bg_notice =
     ''Generating new key in background. Refresh page after two seconds to see generated key.''"

definition generate :: "request \<Rightarrow> response io" where
  "generate req w =
     (if truthy (QueryDict_get (GET req) ''bg'') then
        (case delay GenerateBg w of
           (Inl e, w1) \<Rightarrow> (Inl e, w1)
         | (Inr u, w1) \<Rightarrow> redirect ''home'' (messages_success bg_notice w1))
      else
        (case objects_create w of
           (Inl e, w1) \<Rightarrow> (Inl e, w1)
         | (Inr row, w1) \<Rightarrow> redirect ''home'' (messages_success ''Generated new key.'' w1)))"

text \<open>
  \<^verbatim>\<open>
  def delete(request):
      Secret.objects.all().delete()
      messages.success(request, 'Deleted all keys.')
      return redirect('home')
  \<close>
\<close>

definition delete :: "request \<Rightarrow> response io" where
  "delete req w =
     (case objects_all_delete w of
        (Inl e, w1) \<Rightarrow> (Inl e, w1)
      | (Inr n, w1) \<Rightarrow> redirect ''home'' (messages_success ''Deleted all keys.'' w1))"

section \<open>Running the program\<close>

text \<open>
  The worker process of the queue takes the oldest job and calls its function; a job that
  raises is not put back. With no job waiting it does nothing.
\<close>

fun perform_job :: "job \<Rightarrow> unit io" where
  "perform_job GenerateBg = generate_bg"

definition worker :: "unit io" where
  "worker w =
     (case queue_fault w of
        Some e \<Rightarrow> (Inl e, w)
      | None \<Rightarrow>
          (case queue w of
             [] \<Rightarrow> (Inr (), w)
           | j # js \<Rightarrow> perform_job j (w\<lparr>queue := js\<rparr>)))"

fun call_view :: "view \<Rightarrow> request \<Rightarrow> response io" where
  "call_view Index = index"
| "call_view Generate = generate"
| "call_view Delete = delete"

definition handle_request :: "string \<Rightarrow> request \<Rightarrow> response io" where
  "handle_request path req w =
     (case resolve path of
        None \<Rightarrow> (Inl Resolver404, w)
      | Some v \<Rightarrow> call_view v req w)"

text \<open>
  What happens to the program from outside: a request for a path arrives, or the worker
  runs once. \<open>run\<close> is the state after a sequence of such events.
\<close>

datatype event = Request string request | Work

fun step :: "event \<Rightarrow> world \<Rightarrow> world" where
  "step (Request path req) w = snd (handle_request path req w)"
| "step Work w = snd (worker w)"

fun run :: "event list \<Rightarrow> world \<Rightarrow> world" where
  "run [] w = w"
| "run (ev # evs) w = run evs (step ev w)"

text \<open>An empty database, an idle queue and no fault, as after \<^verbatim>\<open>migrate\<close>.\<close>

definition initial_world :: world where
  "initial_world =
     \<lparr>table = [], next_id = 1, clock = 0, entropy = (\<lambda>i. 7 * i + 3), queue = [],
      notices = [], db_fault = None, queue_fault = None\<rparr>"

definition plain_request :: request where
  "plain_request = \<lparr>GET = Map.empty\<rparr>"

definition bg_request :: request where
  "bg_request = \<lparr>GET = [''bg'' \<mapsto> [''1'']]\<rparr>"

text \<open>A database with two rows, and the same state with the database or the queue down.\<close>

definition sample_world :: world where
  "sample_world =
     initial_world\<lparr>table := [\<lparr>secret_id = 1, created = 5, key = ''abc''\<rparr>,
                             \<lparr>secret_id = 2, created = 9, key = ''xyz''\<rparr>],
                   next_id := 3, clock := 10\<rparr>"



text \<open>
  What the database guarantees of the table: the primary key is unique, and every key in
  use was handed out by the sequence, so it lies below the sequence's next value.
\<close>

definition db_consistent :: "world \<Rightarrow> bool" where
  "db_consistent w \<longleftrightarrow>
     distinct (map secret_id (table w)) \<and> list_all (\<lambda>r. secret_id r < next_id w) (table w)"

text \<open>A request whose parameter \<^verbatim>\<open>bg\<close> is present and empty, as in \<^verbatim>\<open>/generate?bg=\<close>.\<close>

definition empty_bg_request :: request where
  "empty_bg_request = \<lparr>GET = [''bg'' \<mapsto> ['''']]\<rparr>"

section \<open>Properties\<close>

subsection \<open>The framework's operations\<close>

lemma reverse_home: "reverse ''home'' = Some ''/''"
  by (simp add: reverse_def urlpatterns_def)

lemma redirect_home: "redirect ''home'' w = (Inr (Redirect ''/''), w)"
  by (simp add: redirect_def reverse_home)

lemma resolve_routes:
  "resolve '''' = Some Index" "resolve ''generate'' = Some Generate"
  "resolve ''delete'' = Some Delete"
  by (simp_all add: resolve_def urlpatterns_def)

lemma truthy_QueryDict_get:
  "truthy (QueryDict_get q name) \<longleftrightarrow> (\<exists>vs. q name = Some vs \<and> vs \<noteq> [] \<and> last vs \<noteq> [])"
  by (simp add: truthy_def QueryDict_get_def split: option.splits)

lemma length_get_random_string: "length (get_random_string n cs rnd) = n"
  by (simp add: get_random_string_def)

lemma get_random_secret_key_length: "length (fst (get_random_secret_key w)) = 50"
  by (simp add: get_random_secret_key_def length_get_random_string)

lemma sample_key:
  "fst (get_random_secret_key initial_world)
     = ''dkry5#-cjqx4@(bipw3!*ahov29&)gnu18^+fmt07%=elsz6$_''"
  by code_simp

lemma objects_create_ok:
  assumes "db_fault w = None"
  shows "objects_create w =
     (Inr \<lparr>secret_id = next_id w, created = clock w, key = fst (get_random_secret_key w)\<rparr>,
      w\<lparr>entropy := (\<lambda>i. entropy w (i + 50)),
        table := table w @ [\<lparr>secret_id = next_id w, created = clock w,
                              key = fst (get_random_secret_key w)\<rparr>],
        next_id := Suc (next_id w)\<rparr>)"
  using assms
  by (simp add: objects_create_def get_random_secret_key_def length_get_random_string
      max_length_def Let_def)

lemma objects_create_fault:
  assumes "db_fault w = Some e"
  shows "objects_create w = (Inl e, w\<lparr>entropy := (\<lambda>i. entropy w (i + 50))\<rparr>)"
  using assms by (simp add: objects_create_def get_random_secret_key_def)

lemma objects_all_ok:
  assumes "db_fault w = None"
  shows "objects_all w = Inr (rev (sort_key created (table w)))"
  using assms by (simp add: objects_all_def)

lemma descending_rev_sort_key:
  "sorted_wrt (\<lambda>a b. created b \<le> created a) (rev (sort_key created rows))"
proof -
  have "sorted (map created (sort_key created rows))"
    by (rule sorted_sort_key)
  then have "sorted_wrt (\<lambda>a b. created a \<le> created b) (sort_key created rows)"
    by (simp add: sorted_map)
  then show ?thesis
    by (simp add: sorted_wrt_rev)
qed

subsection \<open>The views and the job, when nothing fails\<close>

text \<open>
  Each view and the job as one equation: the response, and the state it leaves. The job
  differs from the synchronous branch of \<open>generate\<close> in the clock, which the sleep has
  advanced, and in storing no notice.
\<close>

lemma generate_sync_ok:
  assumes "db_fault w = None" and "\<not> truthy (QueryDict_get (GET req) ''bg'')"
  shows "generate req w =
     (Inr (Redirect ''/''),
      w\<lparr>entropy := (\<lambda>i. entropy w (i + 50)),
        table := table w @ [\<lparr>secret_id = next_id w, created = clock w,
                              key = fst (get_random_secret_key w)\<rparr>],
        next_id := Suc (next_id w),
        notices := notices w @ [(SUCCESS, ''Generated new key.'')]\<rparr>)"
  using assms
  by (simp add: generate_def objects_create_ok redirect_home messages_success_def)

lemma generate_bg_request_ok:
  assumes "queue_fault w = None" and "truthy (QueryDict_get (GET req) ''bg'')"
  shows "generate req w =
     (Inr (Redirect ''/''),
      w\<lparr>queue := queue w @ [GenerateBg],
        notices := notices w @ [(SUCCESS, bg_notice)]\<rparr>)"
  using assms
  by (simp add: generate_def delay_def redirect_home messages_success_def)

lemma generate_bg_ok:
  assumes "db_fault w = None"
  shows "generate_bg w =
     (Inr (),
      w\<lparr>clock := clock w + 2,
        entropy := (\<lambda>i. entropy w (i + 50)),
        table := table w @ [\<lparr>secret_id = next_id w, created = clock w + 2,
                              key = fst (get_random_secret_key w)\<rparr>],
        next_id := Suc (next_id w)\<rparr>)"
  using assms
  by (simp add: generate_bg_def objects_create_ok time_sleep_def get_random_secret_key_def)

lemma delete_ok:
  assumes "db_fault w = None"
  shows "delete req w =
     (Inr (Redirect ''/''),
      w\<lparr>table := [], notices := notices w @ [(SUCCESS, ''Deleted all keys.'')]\<rparr>)"
  using assms
  by (simp add: delete_def objects_all_delete_def redirect_home messages_success_def)

lemma worker_ok:
  assumes "queue_fault w = None" and "queue w = j # js"
  shows "worker w = generate_bg (w\<lparr>queue := js\<rparr>)"
  using assms by (cases j) (simp add: worker_def)

subsection \<open>Synchronous creation\<close>

text \<open>
  Claim C1. Whatever the table holds, when the database answers and the request does not
  select background mode, \<open>generate\<close> appends exactly one row to the table: the count
  grows by one, the new row has the sequence's next id, the current time and a freshly
  generated key, and that key is not empty and has at most 50 characters. The response
  is the redirect to the list view.
\<close>

theorem generate_sync_inserts_one:
  assumes "db_fault w = None" and "\<not> truthy (QueryDict_get (GET req) ''bg'')"
  shows "table (snd (generate req w)) =
           table w @ [\<lparr>secret_id = next_id w, created = clock w,
                        key = fst (get_random_secret_key w)\<rparr>]
         \<and> length (table (snd (generate req w))) = length (table w) + 1
         \<and> key (last (table (snd (generate req w)))) \<noteq> []
         \<and> length (key (last (table (snd (generate req w))))) \<le> 50
         \<and> fst (generate req w) = Inr (Redirect ''/'')"
proof -
  have k: "length (fst (get_random_secret_key w)) = 50"
    by (rule get_random_secret_key_length)
  then have "fst (get_random_secret_key w) \<noteq> []"
    by auto
  with k show ?thesis
    by (simp add: generate_sync_ok [OF assms])
qed

text \<open>The same on the database with two rows: the third row gets the id 3.\<close>

theorem generate_sync_inserts_one_witness:
  "db_fault sample_world = None
   \<and> \<not> truthy (QueryDict_get (GET plain_request) ''bg'')
   \<and> length (table (snd (generate plain_request sample_world))) = 3
   \<and> secret_id (last (table (snd (generate plain_request sample_world)))) = 3
   \<and> key (last (table (snd (generate plain_request sample_world)))) \<noteq> []
   \<and> length (key (last (table (snd (generate plain_request sample_world))))) \<le> 50"
proof -
  have a: "db_fault sample_world = None"
    by (simp add: sample_world_def initial_world_def)
  have b: "\<not> truthy (QueryDict_get (GET plain_request) ''bg'')"
    by (simp add: plain_request_def QueryDict_get_def truthy_def)
  have n: "next_id sample_world = 3" and t: "length (table sample_world) = 2"
    by (simp_all add: sample_world_def initial_world_def)
  note c = generate_sync_inserts_one [OF a b]
  from c t have "length (table (snd (generate plain_request sample_world))) = 3"
    by simp
  moreover from c n have "secret_id (last (table (snd (generate plain_request sample_world)))) = 3"
    by simp
  ultimately show ?thesis
    using a b c by blast
qed

subsection \<open>The deferred job against the synchronous path\<close>

text \<open>
  Claim C2. Whatever the table holds, when the database answers the job \<open>generate_bg\<close>
  has the effect of the synchronous branch of \<open>generate\<close> on the table: each appends
  exactly one row, with the same id and the same generated default key, and leaves the
  older rows, the sequence's next value after the insert and the queue alike. The job's
  row is stamped two seconds later, after the sleep: the table the job leaves is the one
  the synchronous branch leaves when it runs at that later time. The job stores no
  notice.
\<close>

theorem generate_bg_same_effect:
  assumes "db_fault w = None" and "\<not> truthy (QueryDict_get (GET req) ''bg'')"
  shows "fst (generate_bg w) = Inr ()
         \<and> table (snd (generate_bg w)) =
             table w @ [\<lparr>secret_id = next_id w, created = clock w + 2,
                          key = fst (get_random_secret_key w)\<rparr>]
         \<and> table (snd (generate req w)) =
             table w @ [\<lparr>secret_id = next_id w, created = clock w,
                          key = fst (get_random_secret_key w)\<rparr>]
         \<and> next_id (snd (generate_bg w)) = next_id (snd (generate req w))
         \<and> table (snd (generate_bg w)) = table (snd (generate req (time_sleep 2 w)))
         \<and> queue (snd (generate_bg w)) = queue w
         \<and> notices (snd (generate_bg w)) = notices w"
proof -
  have s: "db_fault (time_sleep 2 w) = None"
    and s': "\<not> truthy (QueryDict_get (GET req) ''bg'')"
    using assms by (simp_all add: time_sleep_def)
  have later: "table (snd (generate req (time_sleep 2 w))) =
      table w @ [\<lparr>secret_id = next_id w, created = clock w + 2,
                   key = fst (get_random_secret_key w)\<rparr>]"
    using generate_sync_ok [OF s s']
    by (simp add: time_sleep_def get_random_secret_key_def)
  show ?thesis
    by (simp add: generate_bg_ok [OF assms(1)] generate_sync_ok [OF assms] later)
qed

text \<open>On the database with two rows at time 10: the job's row is stamped 12.\<close>

theorem generate_bg_same_effect_witness:
  "db_fault sample_world = None
   \<and> \<not> truthy (QueryDict_get (GET plain_request) ''bg'')
   \<and> length (table (snd (generate_bg sample_world))) = 3
   \<and> length (table (snd (generate plain_request sample_world))) = 3
   \<and> created (last (table (snd (generate_bg sample_world)))) = 12
   \<and> created (last (table (snd (generate plain_request sample_world)))) = 10
   \<and> key (last (table (snd (generate_bg sample_world))))
       = key (last (table (snd (generate plain_request sample_world))))"
proof -
  have a: "db_fault sample_world = None"
    by (simp add: sample_world_def initial_world_def)
  have b: "\<not> truthy (QueryDict_get (GET plain_request) ''bg'')"
    by (simp add: plain_request_def QueryDict_get_def truthy_def)
  have c: "clock sample_world = 10" and t: "length (table sample_world) = 2"
    by (simp_all add: sample_world_def initial_world_def)
  note e = generate_bg_same_effect [OF a b]
  from e c t show ?thesis
    using a b by simp
qed

subsection \<open>Deleting\<close>

text \<open>
  Claim C3. Whatever the table holds, the empty table included, when the database
  answers \<open>delete\<close> leaves no row, so the count is zero; it then stores the notice
  \<^verbatim>\<open>Deleted all keys.\<close> and redirects to the list view.
\<close>

theorem delete_removes_all:
  assumes "db_fault w = None"
  shows "table (snd (delete req w)) = []
         \<and> length (table (snd (delete req w))) = 0
         \<and> fst (delete req w) = Inr (Redirect ''/'')
         \<and> notices (snd (delete req w)) = notices w @ [(SUCCESS, ''Deleted all keys.'')]"
  by (simp add: delete_ok [OF assms])

text \<open>On the database with two rows, and on the empty one.\<close>

theorem delete_removes_all_witness:
  "db_fault sample_world = None
   \<and> length (table sample_world) = 2
   \<and> table (snd (delete plain_request sample_world)) = []
   \<and> db_fault initial_world = None
   \<and> table initial_world = []
   \<and> table (snd (delete plain_request initial_world)) = []
   \<and> fst (delete plain_request initial_world) = Inr (Redirect ''/'')"
proof -
  have a: "db_fault sample_world = None"
    by (simp add: sample_world_def initial_world_def)
  have b: "db_fault initial_world = None"
    by (simp add: initial_world_def)
  show ?thesis
    using a b delete_removes_all [OF a, of plain_request] delete_removes_all [OF b, of plain_request]
    by (simp add: sample_world_def initial_world_def)
qed

subsection \<open>Listing\<close>

text \<open>
  Claim C4. Whatever the table holds, when the database answers \<open>index\<close> hands the
  template every stored row, each as often as it is stored and no other (the same
  multiset, so nothing is filtered out or cut off), in descending order of \<open>created\<close>;
  it changes nothing, and for an empty table the list is empty and no error is raised.
\<close>

theorem index_lists_all_descending:
  assumes "db_fault w = None"
  shows "\<exists>secrets.
           index req w = (Inr (Render ''keygen/index.html'' [(''secrets'', secrets)]), w)
           \<and> mset secrets = mset (table w)
           \<and> length secrets = length (table w)
           \<and> sorted_wrt (\<lambda>a b. created b \<le> created a) secrets
           \<and> (table w = [] \<longrightarrow> secrets = [])"
proof -
  let ?s = "rev (sort_key created (table w))"
  have "index req w = (Inr (Render ''keygen/index.html'' [(''secrets'', ?s)]), w)"
    by (simp add: index_def objects_all_ok [OF assms])
  moreover have "mset ?s = mset (table w)"
    by simp
  moreover have "length ?s = length (table w)"
    by simp
  moreover have "sorted_wrt (\<lambda>a b. created b \<le> created a) ?s"
    by (rule descending_rev_sort_key)
  moreover have "table w = [] \<longrightarrow> ?s = []"
    by simp
  ultimately show ?thesis
    by blast
qed

text \<open>On the database with two rows the newer row comes first; the empty one lists nothing.\<close>

theorem index_lists_all_descending_witness:
  "db_fault sample_world = None
   \<and> fst (index plain_request sample_world)
       = Inr (Render ''keygen/index.html''
                [(''secrets'', [\<lparr>secret_id = 2, created = 9, key = ''xyz''\<rparr>,
                                \<lparr>secret_id = 1, created = 5, key = ''abc''\<rparr>])])
   \<and> db_fault initial_world = None
   \<and> fst (index plain_request initial_world) = Inr (Render ''keygen/index.html'' [(''secrets'', [])])"
proof -
  have a: "db_fault sample_world = None"
    by (simp add: sample_world_def initial_world_def)
  have b: "db_fault initial_world = None"
    by (simp add: initial_world_def)
  from index_lists_all_descending [OF b, of plain_request]
  have e: "fst (index plain_request initial_world) = Inr (Render ''keygen/index.html'' [(''secrets'', [])])"
    by (auto simp add: initial_world_def)
  have s: "fst (index plain_request sample_world)
       = Inr (Render ''keygen/index.html''
                [(''secrets'', [\<lparr>secret_id = 2, created = 9, key = ''xyz''\<rparr>,
                                \<lparr>secret_id = 1, created = 5, key = ''abc''\<rparr>])])"
    by (simp add: index_def objects_all_def sample_world_def initial_world_def)
  from a b e s show ?thesis
    by blast
qed

subsection \<open>Rows are never updated\<close>

text \<open>
  One event leaves the table as it is, empties it, or appends one row whose id is the
  sequence's next value; the sequence never goes back.
\<close>

lemma step_table_cases:
  "(table (step ev w) = table w \<or> table (step ev w) = []) \<and> next_id (step ev w) = next_id w
   \<or> (\<exists>c k. table (step ev w) = table w @ [\<lparr>secret_id = next_id w, created = c, key = k\<rparr>]
        \<and> next_id (step ev w) = Suc (next_id w))"
proof (cases ev)
  case (Request path req)
  show ?thesis
  proof (cases "resolve path")
    case None
    with Request show ?thesis
      by (simp add: handle_request_def)
  next
    case (Some v)
    show ?thesis
    proof (cases v)
      case Index
      with Request Some show ?thesis
        by (simp add: handle_request_def index_def split: sum.splits)
    next
      case Generate
      show ?thesis
      proof (cases "truthy (QueryDict_get (GET req) ''bg'')")
        case True
        with Request Some Generate show ?thesis
          by (simp add: handle_request_def generate_def delay_def redirect_home
              messages_success_def split: option.splits)
      next
        case False
        show ?thesis
        proof (cases "db_fault w")
          case None
          with Request Some Generate False show ?thesis
            by (simp add: handle_request_def generate_sync_ok)
        next
          case (Some e)
          with Request \<open>resolve path = Some v\<close> Generate False show ?thesis
            by (simp add: handle_request_def generate_def objects_create_fault)
        qed
      qed
    next
      case Delete
      with Request Some show ?thesis
        by (simp add: handle_request_def delete_def objects_all_delete_def redirect_home
            messages_success_def split: option.splits)
    qed
  qed
next
  case Work
  show ?thesis
  proof (cases "queue_fault w")
    case (Some e)
    with Work show ?thesis
      by (simp add: worker_def)
  next
    case None
    show ?thesis
    proof (cases "queue w")
      case Nil
      with Work None show ?thesis
        by (simp add: worker_def)
    next
      case (Cons j js)
      have wk: "worker w = generate_bg (w\<lparr>queue := js\<rparr>)"
        by (rule worker_ok [OF None Cons])
      show ?thesis
      proof (cases "db_fault w")
        case None
        then show ?thesis
          using Work by (simp add: wk generate_bg_ok)
      next
        case (Some e)
        then show ?thesis
          using Work by (simp add: wk generate_bg_def objects_create_fault time_sleep_def)
      qed
    qed
  qed
qed

lemma step_rows:
  assumes "r \<in> set (table (step ev w))"
  shows "r \<in> set (table w) \<or> next_id w \<le> secret_id r"
  using assms step_table_cases [of ev w] by auto

lemma step_next_id: "next_id w \<le> next_id (step ev w)"
  using step_table_cases [of ev w] by auto

lemma run_rows:
  assumes "r \<in> set (table (run evs w))"
  shows "r \<in> set (table w) \<or> next_id w \<le> secret_id r"
  using assms
proof (induction evs arbitrary: w)
  case Nil
  then show ?case by simp
next
  case (Cons ev evs)
  then have "r \<in> set (table (step ev w)) \<or> next_id (step ev w) \<le> secret_id r"
    by simp
  then show ?case
    using step_rows [of r ev w] step_next_id [of w ev] by auto
qed

lemma step_consistent:
  assumes "db_consistent w"
  shows "db_consistent (step ev w)"
proof -
  from assms have d: "distinct (map secret_id (table w))"
    and below: "\<forall>x \<in> set (table w). secret_id x < next_id w"
    by (simp_all add: db_consistent_def list_all_iff)
  from step_table_cases [of ev w] consider
    (same) "table (step ev w) = table w" "next_id (step ev w) = next_id w"
    | (none) "table (step ev w) = []"
    | (more) c k where
      "table (step ev w) = table w @ [\<lparr>secret_id = next_id w, created = c, key = k\<rparr>]"
      "next_id (step ev w) = Suc (next_id w)"
    by blast
  then show ?thesis
  proof cases
    case same
    with d below show ?thesis
      by (simp add: db_consistent_def list_all_iff)
  next
    case none
    then show ?thesis
      by (simp add: db_consistent_def)
  next
    case more
    from below have "next_id w \<notin> secret_id ` set (table w)"
      by auto
    with d below more show ?thesis
      by (auto simp add: db_consistent_def list_all_iff less_Suc_eq)
  qed
qed

lemma run_consistent:
  assumes "db_consistent w"
  shows "db_consistent (run evs w)"
  using assms by (induction evs arbitrary: w) (simp_all add: step_consistent)

lemma run_append: "run (xs @ ys) w = run ys (run xs w)"
  by (induction xs arbitrary: w) simp_all

lemma run_take_Suc:
  assumes "i < length evs"
  shows "run (take (Suc i) evs) w = step (evs ! i) (run (take i evs) w)"
  using assms by (simp add: take_Suc_conv_app_nth run_append)

lemma run_table_shape:
  "\<exists>news. (table (run evs w) = table w @ news \<or> table (run evs w) = news)
     \<and> list_all (\<lambda>r. next_id w \<le> secret_id r) news"
proof (induction evs arbitrary: w)
  case Nil
  show ?case
    by (rule exI [of _ "[]"]) simp
next
  case (Cons ev evs)
  from Cons.IH [of "step ev w"] obtain news where
    n: "table (run evs (step ev w)) = table (step ev w) @ news
        \<or> table (run evs (step ev w)) = news"
    and f: "list_all (\<lambda>r. next_id (step ev w) \<le> secret_id r) news"
    by blast
  from f step_next_id [of w ev] have f': "list_all (\<lambda>r. next_id w \<le> secret_id r) news"
    by (auto simp add: list_all_iff intro: le_trans)
  from step_table_cases [of ev w] consider
    (same) "table (step ev w) = table w"
    | (none) "table (step ev w) = []"
    | (more) c k where
      "table (step ev w) = table w @ [\<lparr>secret_id = next_id w, created = c, key = k\<rparr>]"
    by blast
  then show ?case
  proof cases
    case same
    with n f' show ?thesis
      by auto
  next
    case none
    with n f' show ?thesis
      by auto
  next
    case more
    let ?row = "\<lparr>secret_id = next_id w, created = c, key = k\<rparr>"
    have "list_all (\<lambda>r. next_id w \<le> secret_id r) (?row # news)"
      using f' by simp
    moreover from n more have "table (run (ev # evs) w) = table w @ (?row # news)
        \<or> table (run (ev # evs) w) = news"
      by auto
    ultimately show ?thesis
      using f' by blast
  qed
qed

text \<open>
  Claim C5. Start from a table the database could hold and let any sequence of requests
  (to any path, with any query string) and runs of the worker happen. Every single
  operation of the sequence leaves the table exactly as it found it, or empties it, or
  appends one row with the sequence's next id to it: it never changes the id, \<open>created\<close>
  or \<open>key\<close> of a row that is there, and it never removes some rows and keeps others.
  So after the whole sequence the table is the old table followed by new rows, or new
  rows only, and every new row has an id the old table never used. The table stays one
  the database could hold, and a row found afterwards under the id of an old row is
  that very row.
\<close>

theorem rows_immutable:
  assumes "db_consistent w"
  shows "(\<forall>i < length evs.
            table (run (take (Suc i) evs) w) = table (run (take i evs) w)
            \<or> table (run (take (Suc i) evs) w) = []
            \<or> (\<exists>c k. table (run (take (Suc i) evs) w) =
                  table (run (take i evs) w)
                    @ [\<lparr>secret_id = next_id (run (take i evs) w), created = c, key = k\<rparr>]))
         \<and> (\<exists>news. (table (run evs w) = table w @ news \<or> table (run evs w) = news)
               \<and> list_all (\<lambda>r. next_id w \<le> secret_id r) news)
         \<and> db_consistent (run evs w)
         \<and> (\<forall>r0 \<in> set (table w). \<forall>r \<in> set (table (run evs w)).
               secret_id r = secret_id r0 \<longrightarrow> r = r0)"
proof -
  have steps: "table (run (take (Suc i) evs) w) = table (run (take i evs) w)
            \<or> table (run (take (Suc i) evs) w) = []
            \<or> (\<exists>c k. table (run (take (Suc i) evs) w) =
                  table (run (take i evs) w)
                    @ [\<lparr>secret_id = next_id (run (take i evs) w), created = c, key = k\<rparr>])"
    if "i < length evs" for i
    using step_table_cases [of "evs ! i" "run (take i evs) w"]
    by (auto simp add: run_take_Suc [OF that])
  have same: "r = r0"
    if r0: "r0 \<in> set (table w)" and r: "r \<in> set (table (run evs w))"
      and eq: "secret_id r = secret_id r0" for r0 r
  proof -
    from assms have d: "distinct (map secret_id (table w))"
      and below: "\<forall>x \<in> set (table w). secret_id x < next_id w"
      by (simp_all add: db_consistent_def list_all_iff)
    from below r0 have "secret_id r0 < next_id w"
      by blast
    with eq have "\<not> next_id w \<le> secret_id r"
      by simp
    with run_rows [OF r] have "r \<in> set (table w)"
      by blast
    with d r0 eq show ?thesis
      by (meson distinct_map inj_onD)
  qed
  from steps same run_table_shape [of evs w] run_consistent [OF assms, of evs]
  show ?thesis
    by blast
qed

text \<open>
  On the database with two rows. After a synchronous creation, a listing, an idle run of
  the worker, a creation in the background and the worker's run of that job there are
  four rows, and the first two are the old ones, as they were. After a creation, a
  deletion and another creation there is one row, with the id 4: the ids 1, 2 and 3 are
  not used again.
\<close>

theorem rows_immutable_witness:
  "db_consistent sample_world
   \<and> length (table (run [Request ''generate'' plain_request, Request '''' plain_request, Work,
                          Request ''generate'' bg_request, Work] sample_world)) = 4
   \<and> take 2 (table (run [Request ''generate'' plain_request, Request '''' plain_request, Work,
                          Request ''generate'' bg_request, Work] sample_world))
       = table sample_world
   \<and> hd (table (run [Request ''generate'' plain_request, Request '''' plain_request, Work,
                      Request ''generate'' bg_request, Work] sample_world))
       = \<lparr>secret_id = 1, created = 5, key = ''abc''\<rparr>
   \<and> db_consistent (run [Request ''generate'' plain_request, Request '''' plain_request, Work,
                          Request ''generate'' bg_request, Work] sample_world)
   \<and> map secret_id (table (run [Request ''generate'' plain_request, Request ''delete'' plain_request,
                                 Request ''generate'' plain_request] sample_world)) = [4]
   \<and> db_consistent (run [Request ''generate'' plain_request, Request ''delete'' plain_request,
                          Request ''generate'' plain_request] sample_world)"
proof -
  let ?evs = "[Request ''generate'' plain_request, Request '''' plain_request, Work,
               Request ''generate'' bg_request, Work]"
  let ?evs2 = "[Request ''generate'' plain_request, Request ''delete'' plain_request,
                Request ''generate'' plain_request]"
  let ?r0 = "\<lparr>secret_id = 1, created = 5, key = ''abc''\<rparr>"
  have c: "db_consistent sample_world"
    by (simp add: db_consistent_def sample_world_def initial_world_def)
  have m: "?r0 \<in> set (table sample_world)"
    by (simp add: sample_world_def initial_world_def)
  have pl: "\<not> truthy (QueryDict_get (GET plain_request) ''bg'')"
    by (simp add: plain_request_def QueryDict_get_def truthy_def)
  have bg: "truthy (QueryDict_get (GET bg_request) ''bg'')"
    by (simp add: bg_request_def QueryDict_get_def truthy_def)
  have t: "\<exists>r1 r2. table (run ?evs sample_world) =
      [?r0, \<lparr>secret_id = 2, created = 9, key = ''xyz''\<rparr>, r1, r2]"
    using pl bg
    by (simp add: handle_request_def resolve_routes generate_sync_ok generate_bg_request_ok
        index_def objects_all_def worker_def generate_bg_ok sample_world_def initial_world_def)
  have ts: "table sample_world = [?r0, \<lparr>secret_id = 2, created = 9, key = ''xyz''\<rparr>]"
    by (simp add: sample_world_def initial_world_def)
  from t have l: "length (table (run ?evs sample_world)) = 4"
    and h: "hd (table (run ?evs sample_world)) \<in> set (table (run ?evs sample_world))"
    and i: "secret_id (hd (table (run ?evs sample_world))) = 1"
    by auto
  from t have k: "take 2 (table (run ?evs sample_world)) = table sample_world"
    unfolding ts by auto
  note e1 = rows_immutable [OF c, of ?evs]
  note e2 = rows_immutable [OF c, of ?evs2]
  have c1: "db_consistent (run ?evs sample_world)"
    by (rule e1 [THEN conjunct2, THEN conjunct2, THEN conjunct1])
  have "\<forall>r0 \<in> set (table sample_world). \<forall>r \<in> set (table (run ?evs sample_world)).
          secret_id r = secret_id r0 \<longrightarrow> r = r0"
    by (rule e1 [THEN conjunct2, THEN conjunct2, THEN conjunct2])
  from this m have "\<forall>r \<in> set (table (run ?evs sample_world)).
          secret_id r = secret_id ?r0 \<longrightarrow> r = ?r0"
    by (rule bspec)
  from this h have "secret_id (hd (table (run ?evs sample_world))) = secret_id ?r0
      \<longrightarrow> hd (table (run ?evs sample_world)) = ?r0"
    by (rule bspec)
  with i have h0: "hd (table (run ?evs sample_world)) = ?r0"
    by simp
  have c2: "db_consistent (run ?evs2 sample_world)"
    by (rule e2 [THEN conjunct2, THEN conjunct2, THEN conjunct1])
  have t2: "map secret_id (table (run ?evs2 sample_world)) = [4]"
    using pl
    by (simp add: handle_request_def resolve_routes generate_sync_ok delete_ok
        sample_world_def initial_world_def)
  from c l k h0 c1 t2 c2 show ?thesis
    by (intro conjI)
qed

subsection \<open>Creation in the background\<close>

text \<open>
  Claim C6. When the request selects background mode and the queue's server answers,
  \<open>generate\<close> changes the state in two places only: one \<open>GenerateBg\<close> job is added to
  the queue and the notice is stored. The table and the sequence are untouched, and the
  response is the redirect. The insert comes later: when the database answers, the
  worker's next run appends one row, stamped after the job's sleep, and takes one job off
  the queue.
\<close>

theorem generate_background_only_enqueues:
  assumes "queue_fault w = None" and "truthy (QueryDict_get (GET req) ''bg'')"
  shows "generate req w =
           (Inr (Redirect ''/''),
            w\<lparr>queue := queue w @ [GenerateBg],
              notices := notices w @ [(SUCCESS, bg_notice)]\<rparr>)
         \<and> table (snd (generate req w)) = table w
         \<and> next_id (snd (generate req w)) = next_id w
         \<and> (db_fault w = None \<longrightarrow>
              table (snd (worker (snd (generate req w)))) =
                table w @ [\<lparr>secret_id = next_id w, created = clock w + 2,
                             key = fst (get_random_secret_key w)\<rparr>]
              \<and> queue (snd (worker (snd (generate req w)))) = tl (queue w @ [GenerateBg]))"
proof -
  let ?w1 = "w\<lparr>queue := queue w @ [GenerateBg],
               notices := notices w @ [(SUCCESS, bg_notice)]\<rparr>"
  have g: "generate req w = (Inr (Redirect ''/''), ?w1)"
    by (rule generate_bg_request_ok [OF assms])
  have later: "table (snd (worker ?w1)) =
                table w @ [\<lparr>secret_id = next_id w, created = clock w + 2,
                             key = fst (get_random_secret_key w)\<rparr>]
              \<and> queue (snd (worker ?w1)) = tl (queue w @ [GenerateBg])"
    if d: "db_fault w = None"
  proof -
    obtain j js where q: "queue w @ [GenerateBg] = j # js"
      by (cases "queue w @ [GenerateBg]") simp_all
    have qf: "queue_fault ?w1 = None" and qq: "queue ?w1 = j # js"
      using assms(1) q by simp_all
    have w1: "worker ?w1 = generate_bg (?w1\<lparr>queue := js\<rparr>)"
      by (rule worker_ok [OF qf qq])
    have w2: "table (snd (generate_bg (?w1\<lparr>queue := js\<rparr>))) =
                table w @ [\<lparr>secret_id = next_id w, created = clock w + 2,
                             key = fst (get_random_secret_key w)\<rparr>]
              \<and> queue (snd (generate_bg (?w1\<lparr>queue := js\<rparr>))) = js"
      using d by (simp add: generate_bg_ok get_random_secret_key_def)
    have "tl (queue w @ [GenerateBg]) = js"
      by (simp only: q list.sel)
    with w1 w2 show ?thesis
      by (simp only:)
  qed
  from g later show ?thesis
    by simp
qed

text \<open>On the database with two rows: two rows after the request, three after the worker.\<close>

theorem generate_background_only_enqueues_witness:
  "queue_fault sample_world = None
   \<and> truthy (QueryDict_get (GET bg_request) ''bg'')
   \<and> db_fault sample_world = None
   \<and> fst (generate bg_request sample_world) = Inr (Redirect ''/'')
   \<and> length (table (snd (generate bg_request sample_world))) = 2
   \<and> queue (snd (generate bg_request sample_world)) = [GenerateBg]
   \<and> length (table (snd (worker (snd (generate bg_request sample_world))))) = 3
   \<and> queue (snd (worker (snd (generate bg_request sample_world)))) = []"
proof -
  have a: "queue_fault sample_world = None" and d: "db_fault sample_world = None"
    and t: "length (table sample_world) = 2" and q: "queue sample_world = []"
    by (simp_all add: sample_world_def initial_world_def)
  have b: "truthy (QueryDict_get (GET bg_request) ''bg'')"
    by (simp add: bg_request_def QueryDict_get_def truthy_def)
  note e = generate_background_only_enqueues [OF a b]
  from e have g: "generate bg_request sample_world =
           (Inr (Redirect ''/''),
            sample_world\<lparr>queue := queue sample_world @ [GenerateBg],
              notices := notices sample_world @ [(SUCCESS, bg_notice)]\<rparr>)"
    by (rule conjunct1)
  from e have tb: "table (snd (generate bg_request sample_world)) = table sample_world"
    by blast
  from e d have wt: "table (snd (worker (snd (generate bg_request sample_world)))) =
      table sample_world @ [\<lparr>secret_id = next_id sample_world, created = clock sample_world + 2,
                             key = fst (get_random_secret_key sample_world)\<rparr>]"
    and wq: "queue (snd (worker (snd (generate bg_request sample_world))))
      = tl (queue sample_world @ [GenerateBg])"
    by blast+
  have "fst (generate bg_request sample_world) = Inr (Redirect ''/'')"
    by (simp add: g)
  moreover have "length (table (snd (generate bg_request sample_world))) = 2"
    by (simp add: tb t)
  moreover have "queue (snd (generate bg_request sample_world)) = [GenerateBg]"
    by (simp add: g q)
  moreover have "length (table (snd (worker (snd (generate bg_request sample_world))))) = 3"
    by (simp add: wt t)
  moreover have "queue (snd (worker (snd (generate bg_request sample_world)))) = []"
    by (simp add: wq q)
  ultimately show ?thesis
    using a b d by blast
qed

subsection \<open>Failures\<close>



subsection \<open>Choosing the mode\<close>

text \<open>
  Claim C8. With the database and the queue's server answering, \<open>generate\<close> queues a
  job exactly when the parameter \<^verbatim>\<open>bg\<close> is present with a value that is not empty, and
  inserts a row exactly when it is not; the value of a parameter given several times is
  its last one, as \<^verbatim>\<open>request.GET.get\<close> reports it. So a request without \<^verbatim>\<open>bg\<close>, or
  with an empty \<^verbatim>\<open>bg\<close>, inserts. Either way the response is the redirect to the root
  path, which is the route of \<open>index\<close>, and one notice is stored: the background notice
  or \<^verbatim>\<open>Generated new key.\<close> The path \<^verbatim>\<open>generate\<close> is the route of \<open>generate\<close>.
\<close>

theorem generate_mode_selection:
  assumes "db_fault w = None" and "queue_fault w = None"
  shows "(queue (snd (generate req w)) = queue w @ [GenerateBg]
            \<longleftrightarrow> (\<exists>vs. GET req ''bg'' = Some vs \<and> vs \<noteq> [] \<and> last vs \<noteq> []))
         \<and> (length (table (snd (generate req w))) = Suc (length (table w))
            \<longleftrightarrow> \<not> (\<exists>vs. GET req ''bg'' = Some vs \<and> vs \<noteq> [] \<and> last vs \<noteq> []))
         \<and> (GET req ''bg'' = None \<longrightarrow>
              length (table (snd (generate req w))) = Suc (length (table w)))
         \<and> (GET req ''bg'' = Some [[]] \<longrightarrow>
              length (table (snd (generate req w))) = Suc (length (table w)))
         \<and> fst (generate req w) = Inr (Redirect ''/'')
         \<and> notices (snd (generate req w)) =
             notices w @ [(SUCCESS,
               if (\<exists>vs. GET req ''bg'' = Some vs \<and> vs \<noteq> [] \<and> last vs \<noteq> [])
               then bg_notice else ''Generated new key.'')]
         \<and> handle_request ''generate'' req w = generate req w
         \<and> handle_request '''' req w = index req w"
proof (cases "truthy (QueryDict_get (GET req) ''bg'')")
  case True
  then have p: "\<exists>vs. GET req ''bg'' = Some vs \<and> vs \<noteq> [] \<and> last vs \<noteq> []"
    by (simp add: truthy_QueryDict_get)
  have g: "generate req w =
     (Inr (Redirect ''/''),
      w\<lparr>queue := queue w @ [GenerateBg], notices := notices w @ [(SUCCESS, bg_notice)]\<rparr>)"
    by (rule generate_bg_request_ok [OF assms(2) True])
  have "queue (snd (generate req w)) = queue w @ [GenerateBg]"
    and "length (table (snd (generate req w))) \<noteq> Suc (length (table w))"
    and "fst (generate req w) = Inr (Redirect ''/'')"
    and "notices (snd (generate req w)) = notices w @ [(SUCCESS, bg_notice)]"
    by (simp_all add: g)
  moreover have "handle_request ''generate'' req w = generate req w"
    and "handle_request '''' req w = index req w"
    by (simp_all add: handle_request_def resolve_routes)
  ultimately show ?thesis
    using p by auto
next
  case False
  then have p: "\<not> (\<exists>vs. GET req ''bg'' = Some vs \<and> vs \<noteq> [] \<and> last vs \<noteq> [])"
    by (simp add: truthy_QueryDict_get)
  note g = generate_sync_ok [OF assms(1) False]
  have "queue (snd (generate req w)) \<noteq> queue w @ [GenerateBg]"
    and "length (table (snd (generate req w))) = Suc (length (table w))"
    and "fst (generate req w) = Inr (Redirect ''/'')"
    and "notices (snd (generate req w)) = notices w @ [(SUCCESS, ''Generated new key.'')]"
    by (simp_all add: g)
  moreover have "handle_request ''generate'' req w = generate req w"
    and "handle_request '''' req w = index req w"
    by (simp_all add: handle_request_def resolve_routes)
  ultimately show ?thesis
    using p by auto
qed

text \<open>The three kinds of request on the database with two rows.\<close>

theorem generate_mode_selection_witness:
  "db_fault sample_world = None \<and> queue_fault sample_world = None
   \<and> queue (snd (generate bg_request sample_world)) = [GenerateBg]
   \<and> length (table (snd (generate bg_request sample_world))) = 2
   \<and> queue (snd (generate plain_request sample_world)) = []
   \<and> length (table (snd (generate plain_request sample_world))) = 3
   \<and> length (table (snd (generate empty_bg_request sample_world))) = 3
   \<and> fst (generate bg_request sample_world) = Inr (Redirect ''/'')
   \<and> fst (generate plain_request sample_world) = Inr (Redirect ''/'')"
proof -
  have a: "db_fault sample_world = None" and b: "queue_fault sample_world = None"
    and t: "length (table sample_world) = 2" and q: "queue sample_world = []"
    by (simp_all add: sample_world_def initial_world_def)
  have bg: "\<exists>vs. GET bg_request ''bg'' = Some vs \<and> vs \<noteq> [] \<and> last vs \<noteq> []"
    by (simp add: bg_request_def)
  have pl: "GET plain_request ''bg'' = None"
    by (simp add: plain_request_def)
  have em: "GET empty_bg_request ''bg'' = Some [[]]"
    by (simp add: empty_bg_request_def)
  note e1 = generate_mode_selection [OF a b, of bg_request]
  note e2 = generate_mode_selection [OF a b, of plain_request]
  note e3 = generate_mode_selection [OF a b, of empty_bg_request]
  from e1 bg have "queue (snd (generate bg_request sample_world)) = [GenerateBg]"
    and "length (table (snd (generate bg_request sample_world))) \<noteq> 3"
    and "fst (generate bg_request sample_world) = Inr (Redirect ''/'')"
    using q t by auto
  moreover have "length (table (snd (generate bg_request sample_world))) = 2"
    using t b bg by (simp add: generate_bg_request_ok truthy_QueryDict_get)
  moreover from e2 pl have "queue (snd (generate plain_request sample_world)) \<noteq> [GenerateBg]"
    and "length (table (snd (generate plain_request sample_world))) = 3"
    and "fst (generate plain_request sample_world) = Inr (Redirect ''/'')"
    using q t by auto
  moreover have "queue (snd (generate plain_request sample_world)) = []"
    using q a pl by (simp add: generate_sync_ok truthy_QueryDict_get)
  moreover from e3 em have "length (table (snd (generate empty_bg_request sample_world))) = 3"
    using t by auto
  ultimately show ?thesis
    using a b by blast
qed

subsection \<open>The default key\<close>

text \<open>
  Claim C9. The generated default key has exactly 50 characters. On either path of
  creation, when the database answers, the key of the row stored is that generated key,
  unchanged, and its length equals the column's limit \<open>max_length\<close>.
\<close>

theorem default_key_has_50_characters:
  assumes "db_fault w = None" and "\<not> truthy (QueryDict_get (GET req) ''bg'')"
  shows "length (fst (get_random_secret_key w)) = 50
         \<and> key (last (table (snd (generate req w)))) = fst (get_random_secret_key w)
         \<and> length (key (last (table (snd (generate req w))))) = max_length
         \<and> key (last (table (snd (generate_bg w)))) = fst (get_random_secret_key w)
         \<and> length (key (last (table (snd (generate_bg w))))) = max_length"
proof -
  have k: "length (fst (get_random_secret_key w)) = 50"
    by (rule get_random_secret_key_length)
  then show ?thesis
    by (simp add: generate_sync_ok [OF assms] generate_bg_ok [OF assms(1)] max_length_def)
qed

text \<open>The key the initial state's randomness yields.\<close>

theorem default_key_has_50_characters_witness:
  "db_fault initial_world = None
   \<and> \<not> truthy (QueryDict_get (GET plain_request) ''bg'')
   \<and> key (last (table (snd (generate plain_request initial_world))))
       = ''dkry5#-cjqx4@(bipw3!*ahov29&)gnu18^+fmt07%=elsz6$_''
   \<and> length (key (last (table (snd (generate plain_request initial_world))))) = 50
   \<and> length (key (last (table (snd (generate_bg initial_world))))) = 50"
proof -
  have a: "db_fault initial_world = None"
    by (simp add: initial_world_def)
  have b: "\<not> truthy (QueryDict_get (GET plain_request) ''bg'')"
    by (simp add: plain_request_def QueryDict_get_def truthy_def)
  note e = default_key_has_50_characters [OF a b]
  from e sample_key show ?thesis
    using a b by (simp add: max_length_def)
qed

subsection \<open>Deleting twice\<close>

text \<open>
  Claim C10. When the database answers, a second \<open>delete\<close> after a first leaves the
  table and the sequence as the first left them: the table is empty. The second call
  succeeds with the redirect, and so does a call on a table that is empty already.
\<close>

theorem delete_idempotent:
  assumes "db_fault w = None"
  shows "table (snd (delete req' (snd (delete req w)))) = table (snd (delete req w))
         \<and> next_id (snd (delete req' (snd (delete req w)))) = next_id (snd (delete req w))
         \<and> table (snd (delete req w)) = []
         \<and> fst (delete req' (snd (delete req w))) = Inr (Redirect ''/'')
         \<and> (table w = [] \<longrightarrow>
              fst (delete req w) = Inr (Redirect ''/'') \<and> table (snd (delete req w)) = table w)"
proof -
  let ?w1 = "w\<lparr>table := [], notices := notices w @ [(SUCCESS, ''Deleted all keys.'')]\<rparr>"
  have one: "delete req w = (Inr (Redirect ''/''), ?w1)"
    by (rule delete_ok [OF assms])
  have "db_fault ?w1 = None"
    using assms by simp
  then have two: "delete req' ?w1 =
      (Inr (Redirect ''/''),
       ?w1\<lparr>table := [], notices := notices ?w1 @ [(SUCCESS, ''Deleted all keys.'')]\<rparr>)"
    by (rule delete_ok)
  show ?thesis
    by (simp add: one two)
qed

text \<open>On the database with two rows, and on the empty one.\<close>

theorem delete_idempotent_witness:
  "db_fault sample_world = None
   \<and> table (snd (delete plain_request (snd (delete plain_request sample_world)))) = []
   \<and> table (snd (delete plain_request sample_world)) = []
   \<and> next_id (snd (delete plain_request (snd (delete plain_request sample_world)))) = 3
   \<and> db_fault initial_world = None
   \<and> table initial_world = []
   \<and> fst (delete plain_request initial_world) = Inr (Redirect ''/'')"
proof -
  have a: "db_fault sample_world = None" and n: "next_id sample_world = 3"
    by (simp_all add: sample_world_def initial_world_def)
  have b: "db_fault initial_world = None" and t: "table initial_world = []"
    by (simp_all add: initial_world_def)
  have n1: "next_id (snd (delete plain_request sample_world)) = 3"
    using n by (simp add: delete_ok [OF a])
  from delete_idempotent [OF a, of plain_request plain_request]
    delete_idempotent [OF b, of plain_request plain_request] n1 t
  show ?thesis
    using a b by simp
qed

end
